theory Spec2Isabelle
  imports Main "HOL-Library.Log_Nat"
begin

section \<open>Python strings and the characters of a pattern\<close>

text \<open>
  A Python \<open>str\<close> is a sequence of code points. The model writes it as a \<open>string\<close>,
  one \<open>char\<close> per code point, so it covers the code points below 256 (Latin-1);
  \<open>length\<close> is Python's \<open>len\<close>. The classes below are those of Python's \<open>re\<close> on
  \<open>str\<close> patterns, restricted to that range (beyond it Python knows further digits
  and letters, which no text of this model contains).
\<close>

definition code_point :: "char \<Rightarrow> nat" where
  "code_point c = of_char c"

definition is_digit :: "char \<Rightarrow> bool" where
  \<comment> \<open>\<open>\d\<close>: the decimal digits; below 256 these are \<open>0\<close> to \<open>9\<close>.\<close>
  "is_digit c = (48 \<le> code_point c \<and> code_point c \<le> 57)"

definition is_lower :: "char \<Rightarrow> bool" where
  \<comment> \<open>\<open>[a-z]\<close>\<close>
  "is_lower c = (97 \<le> code_point c \<and> code_point c \<le> 122)"

definition is_upper :: "char \<Rightarrow> bool" where
  \<comment> \<open>\<open>[A-Z]\<close>\<close>
  "is_upper c = (65 \<le> code_point c \<and> code_point c \<le> 90)"

definition is_word :: "char \<Rightarrow> bool" where
  \<comment> \<open>\<open>\w\<close>: alphanumeric (\<open>str.isalnum\<close>) or the underscore. Above ASCII the
      alphanumeric code points below 256 are the letters of Latin-1 and the
      superscript digits and fractions.\<close>
  "is_word c = (is_digit c \<or> is_lower c \<or> is_upper c \<or> code_point c = 95
     \<or> code_point c = 170 \<or> code_point c = 178 \<or> code_point c = 179
     \<or> code_point c = 181 \<or> code_point c = 185 \<or> code_point c = 186
     \<or> code_point c = 188 \<or> code_point c = 189 \<or> code_point c = 190
     \<or> (192 \<le> code_point c \<and> code_point c \<noteq> 215 \<and> code_point c \<noteq> 247))"

datatype char_class =
    Digit             \<comment> \<open>\<open>\d\<close>\<close>
  | AnyChar           \<comment> \<open>\<open>.\<close> (every character but the newline)\<close>
  | Lower             \<comment> \<open>\<open>[a-z]\<close>\<close>
  | Upper             \<comment> \<open>\<open>[A-Z]\<close>\<close>
  | Lit char          \<comment> \<open>a literal character\<close>

fun in_class :: "char_class \<Rightarrow> char \<Rightarrow> bool" where
  "in_class Digit c = is_digit c"
| "in_class AnyChar c = (code_point c \<noteq> 10)"
| "in_class Lower c = is_lower c"
| "in_class Upper c = is_upper c"
| "in_class (Lit d) c = (c = d)"

section \<open>The regular expressions of the source\<close>

datatype regex =
    Chars char_class        \<comment> \<open>one character of a class\<close>
  | Plus char_class         \<comment> \<open>\<open>c+\<close>, greedy\<close>
  | PlusLazy char_class     \<comment> \<open>\<open>c+?\<close>, lazy\<close>
  | Opt regex               \<comment> \<open>\<open>(?:r)?\<close>, greedy\<close>
  | Seq regex regex         \<comment> \<open>\<open>r1 r2\<close>\<close>
  | Alt regex regex         \<comment> \<open>\<open>r1|r2\<close>\<close>
  | WordBoundary            \<comment> \<open>\<open>\b\<close>\<close>
  | Bol                     \<comment> \<open>\<open>^\<close> (no MULTILINE flag)\<close>
  | Eol                     \<comment> \<open>\<open>$\<close> (no MULTILINE flag)\<close>
  | LookBehind char_class   \<comment> \<open>\<open>(?<=c)\<close>\<close>
  | LookAhead regex         \<comment> \<open>\<open>(?=r)\<close>\<close>

definition word_at :: "string \<Rightarrow> nat \<Rightarrow> bool" where
  "word_at s i = (i < length s \<and> is_word (s ! i))"

definition boundary :: "string \<Rightarrow> nat \<Rightarrow> bool" where
  \<comment> \<open>\<open>\b\<close> at position \<open>i\<close>: exactly one of the characters before and after
      \<open>i\<close> is a word character; outside the string there is none.\<close>
  "boundary s i = ((0 < i \<and> word_at s (i - 1)) \<noteq> word_at s i)"

definition run :: "char_class \<Rightarrow> string \<Rightarrow> nat \<Rightarrow> nat" where
  \<comment> \<open>the length of the longest run of characters of the class from \<open>i\<close>\<close>
  "run c s i = length (takeWhile (in_class c) (drop i s))"

text \<open>
  Python matches by backtracking: a greedy repetition tries the longest run first, a
  lazy one the shortest, an option tries its body before the empty match, an
  alternative its left branch before its right. \<open>ends r s i\<close> lists the positions
  where a match of \<open>r\<close> that starts at position \<open>i\<close> of \<open>s\<close> can end, in the order in
  which the matcher reaches them; the match it returns is the first of the list.
\<close>

fun ends :: "regex \<Rightarrow> string \<Rightarrow> nat \<Rightarrow> nat list" where
  "ends (Chars c) s i = (if i < length s \<and> in_class c (s ! i) then [Suc i] else [])"
| "ends (Plus c) s i = rev (map (\<lambda>k. i + k) [1 ..< Suc (run c s i)])"
| "ends (PlusLazy c) s i = map (\<lambda>k. i + k) [1 ..< Suc (run c s i)]"
| "ends (Opt r) s i = ends r s i @ [i]"
| "ends (Seq r1 r2) s i = concat (map (ends r2 s) (ends r1 s i))"
| "ends (Alt r1 r2) s i = ends r1 s i @ ends r2 s i"
| "ends WordBoundary s i = (if boundary s i then [i] else [])"
| "ends Bol s i = (if i = 0 then [i] else [])"
| "ends Eol s i =
     (if i = length s \<or> (Suc i = length s \<and> code_point (s ! i) = 10) then [i] else [])"
| "ends (LookBehind c) s i = (if 0 < i \<and> i \<le> length s \<and> in_class c (s ! (i - 1)) then [i] else [])"
| "ends (LookAhead r) s i = (if ends r s i = [] then [] else [i])"

text \<open>
  \<open>re.finditer\<close>: the matches from left to right, as pairs of start and end. After a
  match the search goes on where it ended; after an empty match the next match may
  start at the same position but must not be empty there (\<open>adv\<close>).
\<close>

function scan :: "regex \<Rightarrow> string \<Rightarrow> nat \<Rightarrow> bool \<Rightarrow> (nat \<times> nat) list" where
  "scan r s i adv =
     (if length s < i then []
      else case filter (\<lambda>e. \<not> (adv \<and> e = i)) (ends r s i) of
             [] \<Rightarrow> scan r s (Suc i) False
           | e # _ \<Rightarrow> (i, e) # (if e = i then scan r s i True else scan r s e False))"
  by pat_completeness auto
termination
proof (relation "measures [\<lambda>(r, s, i, adv). Suc (length s) - i, \<lambda>(r, s, i, adv). if adv then 0 else 1]")
  show "wf (measures [\<lambda>(r, s, i, adv). Suc (length s) - i, \<lambda>(r, s, i, adv). if adv then 0 else (1::nat)])"
    by simp
next
  fix r :: regex and s :: string and i :: nat and adv :: bool
  assume "\<not> length s < i"
  then show "((r, s, Suc i, False), r, s, i, adv)
      \<in> measures [\<lambda>(r, s, i, adv). Suc (length s) - i, \<lambda>(r, s, i, adv). if adv then 0 else 1]"
    by auto
next
  fix r :: regex and s :: string and i :: nat and adv :: bool and e :: nat and es :: "nat list"
  assume a: "\<not> length s < i" "filter (\<lambda>e. \<not> (adv \<and> e = i)) (ends r s i) = e # es" "e = i"
  have "e \<in> set (e # es)" by simp
  with a(2) have "e \<in> set (filter (\<lambda>e. \<not> (adv \<and> e = i)) (ends r s i))" by metis
  with a(3) have "\<not> adv" by simp
  then show "((r, s, i, True), r, s, i, adv)
      \<in> measures [\<lambda>(r, s, i, adv). Suc (length s) - i, \<lambda>(r, s, i, adv). if adv then 0 else 1]"
    by auto
next
  fix r :: regex and s :: string and i :: nat and adv :: bool and e :: nat and es :: "nat list"
  assume a: "\<not> length s < i" "filter (\<lambda>e. \<not> (adv \<and> e = i)) (ends r s i) = e # es" "e \<noteq> i"
  have ge: "k \<le> j" if "j \<in> set (ends q s k)" for j k q
    using that
  proof (induction q arbitrary: k j)
    case (Seq r1 r2)
    then obtain m where "m \<in> set (ends r1 s k)" "j \<in> set (ends r2 s m)"
      by auto
    with Seq.IH have "k \<le> m" "m \<le> j"
      by blast+
    then show ?case
      by simp
  qed (auto split: if_splits)
  have "e \<in> set (e # es)" by simp
  with a(2) have "e \<in> set (filter (\<lambda>e. \<not> (adv \<and> e = i)) (ends r s i))" by metis
  then have "e \<in> set (ends r s i)" by simp
  then have "i \<le> e" by (rule ge)
  with a show "((r, s, e, False), r, s, i, adv)
      \<in> measures [\<lambda>(r, s, i, adv). Suc (length s) - i, \<lambda>(r, s, i, adv). if adv then 0 else 1]"
    by auto
qed

declare scan.simps [simp del]

definition substr :: "string \<Rightarrow> nat \<times> nat \<Rightarrow> string" where
  \<comment> \<open>\<open>s[i:e]\<close>\<close>
  "substr s m = take (snd m - fst m) (drop (fst m) s)"

definition findall :: "regex \<Rightarrow> string \<Rightarrow> string list" where
  \<comment> \<open>\<open>re.findall\<close> for a pattern whose only group spans the match, and the list of
      \<open>m.group(0)\<close> over \<open>re.finditer\<close>\<close>
  "findall r s = map (substr s) (scan r s 0 False)"

fun splice :: "string \<Rightarrow> string \<Rightarrow> nat \<Rightarrow> (nat \<times> nat) list \<Rightarrow> string" where
  \<comment> \<open>the text from \<open>pos\<close> on, with each match replaced by \<open>repl\<close>\<close>
  "splice repl s pos [] = drop pos s"
| "splice repl s pos (m # ms) = take (fst m - pos) (drop pos s) @ repl @ splice repl s (snd m) ms"

definition sub :: "regex \<Rightarrow> string \<Rightarrow> string \<Rightarrow> string" where
  \<comment> \<open>\<open>re.sub(r, repl, s)\<close> for a replacement text without group references\<close>
  "sub r repl s = splice repl s 0 (scan r s 0 False)"

definition box_pattern :: regex where
  \<comment> \<open>\<open>\b(\d+(?:\.\d+)?)\b\<close>, the pattern of box2geometry\<close>
  "box_pattern =
     Seq WordBoundary
       (Seq (Seq (Plus Digit) (Opt (Seq (Chars (Lit CHR ''.'')) (Plus Digit)))) WordBoundary)"

section \<open>Floating-point numbers\<close>

text \<open>
  A Python \<open>float\<close> is an IEEE 754 binary64 number: a finite value (a rational with a
  53-bit significand), an infinity or a NaN. The two zeros are not told apart. Every
  operation returns the exact result rounded to the nearest binary64 number, ties to
  the even significand.
\<close>

datatype double = Finite rat | PosInf | NegInf | NaN

definition pow2 :: "int \<Rightarrow> rat" where
  \<comment> \<open>\<open>2\<^sup>k\<close> for an integer \<open>k\<close>\<close>
  "pow2 k = (if 0 \<le> k then 2 ^ nat k else 1 / 2 ^ nat (- k))"

definition ilog2 :: "rat \<Rightarrow> int" where
  \<comment> \<open>\<open>\<lfloor>log\<^sub>2 a\<rfloor>\<close> for \<open>a > 0\<close>, from the bit lengths of numerator and denominator\<close>
  "ilog2 a =
     (let k = bitlen (fst (quotient_of a)) - bitlen (snd (quotient_of a))
      in if pow2 k \<le> a then k else k - 1)"

definition round_half_even :: "rat \<Rightarrow> int" where
  \<comment> \<open>the nearest integer, and the even one of the two when \<open>x\<close> lies half way\<close>
  "round_half_even x =
     (let f = \<lfloor>x\<rfloor>; d = x - of_int f
      in if d < 1 / 2 then f else if 1 / 2 < d then f + 1 else if even f then f else f + 1)"

definition fl :: "rat \<Rightarrow> double" where
  \<comment> \<open>rounding to binary64: the unit in the last place is \<open>2 ^ (e - 52)\<close>, where
      \<open>e\<close> is the exponent of the value and at least -1022 (the subnormal range);
      a result of \<open>2 ^ 1024\<close> or more overflows to an infinity\<close>
  "fl x =
     (if x = 0 then Finite 0
      else let a = \<bar>x\<bar>;
               u = pow2 (max (ilog2 a) (- 1022) - 52);
               y = of_int (round_half_even (a / u)) * u
           in if pow2 1024 \<le> y then (if 0 < x then PosInf else NegInf)
              else Finite (if 0 < x then y else - y))"

fun dneg :: "double \<Rightarrow> double" where
  "dneg (Finite x) = Finite (- x)"
| "dneg PosInf = NegInf"
| "dneg NegInf = PosInf"
| "dneg NaN = NaN"

fun ddiv :: "double \<Rightarrow> nat \<Rightarrow> double" where
  \<comment> \<open>division of a float by a positive integer literal\<close>
  "ddiv (Finite x) k = fl (x / of_nat k)"
| "ddiv d k = d"

fun dadd :: "double \<Rightarrow> nat \<Rightarrow> double" where
  \<comment> \<open>addition of an integer literal to a float\<close>
  "dadd (Finite x) k = fl (x + of_nat k)"
| "dadd d k = d"

section \<open>Python values and exceptions\<close>

text \<open>
  The values \<open>json.loads\<close> returns: \<open>None\<close>, booleans, unbounded integers, floats,
  strings, lists, and dicts with string keys (the items in insertion order, the keys
  distinct).
\<close>

datatype json =
    JNull
  | JBool bool
  | JInt int
  | JFloat double
  | JStr string
  | JArr "json list"
  | JObj "(string \<times> json) list"

datatype error =
    InvalidBox string   \<comment> \<open>\<open>InvalidBox('Could not parse: {}'.format(box))\<close>, with the box text\<close>
  | NameError json      \<comment> \<open>\<open>NameError('Could not find group {} in dictionary'.format(group))\<close>\<close>
  | KeyError string     \<comment> \<open>a dict has no such key\<close>
  | TypeError           \<comment> \<open>an operation on a value of the wrong type\<close>
  | AttributeError      \<comment> \<open>a method of a value that has none of that name\<close>
  | ValueError          \<comment> \<open>\<open>float\<close> of a string that is no number; \<open>json.loads\<close> of a malformed text\<close>
  | OverflowError       \<comment> \<open>an integer division whose result is too large for a float\<close>

fun py_getitem :: "json \<Rightarrow> string \<Rightarrow> error + json" where
  \<comment> \<open>\<open>v[k]\<close> for a string key \<open>k\<close>\<close>
  "py_getitem (JObj kvs) k = (case map_of kvs k of None \<Rightarrow> Inl (KeyError k) | Some v \<Rightarrow> Inr v)"
| "py_getitem v k = Inl TypeError"

fun py_keys :: "json \<Rightarrow> error + string list" where
  \<comment> \<open>\<open>v.keys()\<close>\<close>
  "py_keys (JObj kvs) = Inr (map fst kvs)"
| "py_keys v = Inl AttributeError"

fun py_iter :: "json \<Rightarrow> error + json list" where
  \<comment> \<open>the elements a \<open>for\<close> loop over the value visits\<close>
  "py_iter (JArr xs) = Inr xs"
| "py_iter (JObj kvs) = Inr (map (\<lambda>kv. JStr (fst kv)) kvs)"
| "py_iter (JStr s) = Inr (map (\<lambda>c. JStr [c]) s)"
| "py_iter v = Inl TypeError"

fun py_neg :: "json \<Rightarrow> error + json" where
  \<comment> \<open>\<open>-v\<close>; a boolean counts as the integer 0 or 1\<close>
  "py_neg (JInt n) = Inr (JInt (- n))"
| "py_neg (JBool b) = Inr (JInt (- (if b then 1 else 0)))"
| "py_neg (JFloat d) = Inr (JFloat (dneg d))"
| "py_neg v = Inl TypeError"

fun py_truediv :: "json \<Rightarrow> nat \<Rightarrow> error + json" where
  \<comment> \<open>\<open>v / k\<close> for a positive integer literal \<open>k\<close>: the quotient of two integers is the
      exact quotient rounded once, and an OverflowError when that is no finite float\<close>
  "py_truediv (JInt n) k =
     (case fl (of_int n / of_nat k) of Finite q \<Rightarrow> Inr (JFloat (Finite q)) | _ \<Rightarrow> Inl OverflowError)"
| "py_truediv (JBool b) k = Inr (JFloat (fl ((if b then 1 else 0) / of_nat k)))"
| "py_truediv (JFloat d) k = Inr (JFloat (ddiv d k))"
| "py_truediv v k = Inl TypeError"

fun py_add :: "json \<Rightarrow> nat \<Rightarrow> error + json" where
  \<comment> \<open>\<open>v + k\<close> for an integer literal \<open>k\<close>\<close>
  "py_add (JInt n) k = Inr (JInt (n + int k))"
| "py_add (JBool b) k = Inr (JInt ((if b then 1 else 0) + int k))"
| "py_add (JFloat d) k = Inr (JFloat (dadd d k))"
| "py_add v k = Inl TypeError"

fun py_float :: "json \<Rightarrow> error + double" where
  \<comment> \<open>\<open>float(v)\<close> of a number\<close>
  "py_float (JFloat d) = Inr d"
| "py_float (JInt n) = (case fl (of_int n) of Finite q \<Rightarrow> Inr (Finite q) | _ \<Rightarrow> Inl OverflowError)"
| "py_float (JBool b) = Inr (Finite (if b then 1 else 0))"
| "py_float v = Inl TypeError"

definition bind :: "error + 'a \<Rightarrow> ('a \<Rightarrow> error + 'b) \<Rightarrow> error + 'b" where
  \<comment> \<open>evaluation in sequence: the first exception ends it\<close>
  "bind m f = (case m of Inl e \<Rightarrow> Inl e | Inr v \<Rightarrow> f v)"

subsection \<open>float of a numeric token\<close>

definition digit_value :: "char \<Rightarrow> nat" where
  "digit_value c = code_point c - 48"

definition digits_value :: "string \<Rightarrow> nat" where
  "digits_value ds = foldl (\<lambda>a c. 10 * a + digit_value c) 0 ds"

definition all_digits :: "string \<Rightarrow> bool" where
  "all_digits ds = (ds \<noteq> [] \<and> list_all is_digit ds)"

definition is_token :: "string \<Rightarrow> bool" where
  \<comment> \<open>a string of the form \<open>digits\<close> or \<open>digits.digits\<close>\<close>
  "is_token t =
     (let ip = takeWhile is_digit t; rest = dropWhile is_digit t
      in all_digits ip \<and> (rest = [] \<or> (take 1 rest = ''.'' \<and> all_digits (drop 1 rest))))"

definition decimal_value :: "string \<Rightarrow> rat" where
  \<comment> \<open>the value of such a string: the integer part, and the fraction after the point\<close>
  "decimal_value t =
     (let ip = takeWhile is_digit t; fp = drop 1 (dropWhile is_digit t)
      in of_nat (digits_value ip) + of_nat (digits_value fp) / 10 ^ length fp)"

definition float_str :: "string \<Rightarrow> error + double" where
  \<comment> \<open>\<open>float(t)\<close> for a string \<open>t\<close> of the form \<open>digits\<close> or \<open>digits.digits\<close>: the
      decimal value, rounded once. The source applies \<open>float\<close> to such strings only;
      on every other string the model answers ValueError, which is Python's answer
      only where the string is no number at all.\<close>
  "float_str t = (if is_token t then Inr (fl (decimal_value t)) else Inl ValueError)"

section \<open>The filter\<close>

subsection \<open>translate_group\<close>

definition translate_group :: "(string \<Rightarrow> string) \<Rightarrow> json \<Rightarrow> error + string" where
  \<comment> \<open>\<open>tr\<close> is Qt's translation of a source text (\<open>self.tr\<close>)\<close>
  "translate_group tr g =
     (if g = JStr ''zipcode'' then Inr (tr ''ZIP code'')
      else if g = JStr ''gg25'' then Inr (tr ''Municipal boundaries'')
      else if g = JStr ''district'' then Inr (tr ''District'')
      else if g = JStr ''kantone'' then Inr (tr ''Cantons'')
      else if g = JStr ''gazetteer'' then Inr (tr ''Index'')
      else if g = JStr ''address'' then Inr (tr ''Address'')
      else if g = JStr ''parcel'' then Inr (tr ''Parcel'')
      else Inl (NameError g))"

subsection \<open>rank2priority\<close>

definition rank2priority :: "json \<Rightarrow> error + double" where
  \<comment> \<open>\<open>float(-rank / 7 + 1)\<close>\<close>
  "rank2priority rank =
     bind (py_neg rank) (\<lambda>a. bind (py_truediv a 7) (\<lambda>b. bind (py_add b 1) py_float))"

subsection \<open>box2geometry\<close>

datatype rectangle = QgsRectangle double double double double
  \<comment> \<open>the call \<open>QgsRectangle(xmin, ymin, xmax, ymax)\<close> with its four arguments; what the
      class of the GIS library makes of them is not part of this model\<close>

definition box2geometry :: "string \<Rightarrow> error + rectangle" where
  "box2geometry box =
     (let coords = findall box_pattern box
      in if length coords \<noteq> 4 then Inl (InvalidBox box)
         else bind (float_str (coords ! 0)) (\<lambda>x0.
              bind (float_str (coords ! 1)) (\<lambda>y0.
              bind (float_str (coords ! 2)) (\<lambda>x1.
              bind (float_str (coords ! 3)) (\<lambda>y1.
              Inr (QgsRectangle x0 y0 x1 y1))))))"

subsection \<open>Settings, messages, requests and results\<close>

text \<open>
  The settings store, the message log, the network and the host's result signal are
  collaborators of the filter. The settings are a record of the values the filter
  reads; a message is recorded with the values it is formatted from; a request is
  recorded when it is issued, and what the network answers is an input.
\<close>

record settings =
  s_lang :: string                    \<comment> \<open>\<open>value('lang')\<close>, empty when not set\<close>
  s_crs :: string                     \<comment> \<open>\<open>value('crs')\<close>\<close>
  s_remove_leading_digits :: bool     \<comment> \<open>\<open>value("remove_leading_digits")\<close>\<close>
  s_replace_underscore :: bool        \<comment> \<open>\<open>value("replace_underscore")\<close>\<close>
  s_break_camelcase :: bool           \<comment> \<open>\<open>value("break_camelcase")\<close>\<close>

definition AVAILABLE_CRS :: "string list" where
  "AVAILABLE_CRS = [''2056'', ''21781'']"

definition AVAILABLE_LANGUAGES :: "(string \<times> string) list" where
  "AVAILABLE_LANGUAGES =
     [(''German'', ''de''), (''SwissGerman'', ''de''), (''French'', ''fr''),
      (''Italian'', ''it''), (''Romansh'', ''rm''), (''English'', ''en'')]"

datatype message =
    StartSearch               \<comment> \<open>\<open>"start Swiss locator search..."\<close>\<close>
  | UrlMessage string         \<comment> \<open>the url of the request\<close>
  | StatusCode int            \<comment> \<open>\<open>"Error with status code: {}"\<close>\<close>
  | RequestFailed string      \<comment> \<open>the text of a RequestsException\<close>
  | Keys "string list"        \<comment> \<open>\<open>"keys: {}"\<close>\<close>
  | Label json                \<comment> \<open>\<open>"label: {}"\<close>\<close>
  | Detail json               \<comment> \<open>\<open>"detail: {}"\<close>\<close>
  | Priority double json      \<comment> \<open>\<open>"priority: {} (rank: {})"\<close>\<close>
  | Category string json      \<comment> \<open>\<open>"category: {} ({})"\<close>\<close>
  | Bbox json                 \<comment> \<open>\<open>"bbox: {}"\<close>\<close>

record request =
  url :: string
  headers :: "(string \<times> string) list"
  blocking :: bool

datatype outcome =
    Response int "error + json"
      \<comment> \<open>a response with its status code, and what
          \<open>json.loads(content.decode('utf-8'))\<close> gives for its content\<close>
  | UserAbort                 \<comment> \<open>RequestsExceptionUserAbort\<close>
  | RequestFailure string     \<comment> \<open>any other RequestsException\<close>

record locator_result =
  displayString :: json
  group_name :: string        \<comment> \<open>the field \<open>group\<close>\<close>
  userData :: rectangle

record locator_filter =
  reply :: "nat option"       \<comment> \<open>\<open>self.reply\<close>: a request of \<open>requests\<close>, or None\<close>
  locale_lang :: string
  lang :: string
  settings :: settings
  log :: "message list"       \<comment> \<open>the messages written to the message log\<close>
  results :: "locator_result list"   \<comment> \<open>the results emitted with \<open>resultFetched\<close>\<close>
  requests :: "request list"  \<comment> \<open>the requests issued to the network\<close>
  running :: "nat list"       \<comment> \<open>the requests in flight, by their index in \<open>requests\<close>\<close>
  aborted :: "nat list"       \<comment> \<open>the requests the filter aborted\<close>

definition USER_AGENT :: string where
  "USER_AGENT = ''Mozilla/5.0 QGIS Swiss MapGeoAdmin Locator Filter''"

definition init :: "settings \<Rightarrow> string \<Rightarrow> locator_filter" where
  \<comment> \<open>\<open>__init__\<close>; the map canvas and the rubber band are left out\<close>
  "init stg loc =
     \<lparr>reply = None,
      locale_lang = loc,
      lang = (if s_lang stg = [] then
                (case map_of AVAILABLE_LANGUAGES loc of Some l \<Rightarrow> l | None \<Rightarrow> ''en'')
              else s_lang stg),
      settings = stg,
      log = [], results = [], requests = [], running = [], aborted = []\<rparr>"

definition info :: "message \<Rightarrow> locator_filter \<Rightarrow> locator_filter" where
  "info msg st = st\<lparr>log := log st @ [msg]\<rparr>"

definition dbg_info :: "bool \<Rightarrow> message \<Rightarrow> locator_filter \<Rightarrow> locator_filter" where
  \<comment> \<open>\<open>DEBUG\<close> is a constant of the plugin module\<close>
  "dbg_info DEBUG msg st = (if DEBUG then info msg st else st)"

subsection \<open>url_with_param\<close>

text \<open>
  \<open>QUrl\<close> and \<open>QUrlQuery\<close> are classes of Qt. The source calls five of their
  operations; the model takes them as a record of functions over the two types.
\<close>

record ('u, 'q) qt =
  QUrl :: "string \<Rightarrow> 'u"                             \<comment> \<open>\<open>QUrl(url)\<close>\<close>
  QUrlQuery :: "'u \<Rightarrow> 'q"                            \<comment> \<open>\<open>QUrlQuery(url)\<close>\<close>
  addQueryItem :: "'q \<Rightarrow> string \<Rightarrow> string \<Rightarrow> 'q"   \<comment> \<open>\<open>q.addQueryItem(key, value)\<close>\<close>
  setQuery :: "'u \<Rightarrow> 'q \<Rightarrow> 'u"                       \<comment> \<open>\<open>url.setQuery(q)\<close>\<close>
  url_text :: "'u \<Rightarrow> string"                         \<comment> \<open>\<open>url.url()\<close>\<close>

definition url_with_param :: "('u, 'q) qt \<Rightarrow> string \<Rightarrow> (string \<times> string) list \<Rightarrow> string" where
  \<comment> \<open>\<open>params\<close>: the items of the dict, in its order\<close>
  "url_with_param Q u params =
     (let url0 = QUrl Q u;
          q = foldl (\<lambda>q kv. addQueryItem Q q (fst kv) (snd kv)) (QUrlQuery Q url0) params
      in url_text Q (setQuery Q url0 q))"

text \<open>
  An instance of the operations: a url is its address and the list of its query
  items, written \<open>address?key=value&key=value\<close>. This is what Qt does as long as no
  character of a key or value needs percent-encoding and the address has no fragment.
\<close>

record plain_url =
  address :: string
  query_items :: "(string \<times> string) list"

fun split_on :: "char \<Rightarrow> string \<Rightarrow> string list" where
  "split_on d [] = [[]]"
| "split_on d (c # cs) =
     (if c = d then [] # split_on d cs
      else case split_on d cs of [] \<Rightarrow> [[c]] | w # ws \<Rightarrow> (c # w) # ws)"

definition parse_item :: "string \<Rightarrow> string \<times> string" where
  "parse_item kv = (takeWhile (\<lambda>c. c \<noteq> CHR ''='') kv, drop 1 (dropWhile (\<lambda>c. c \<noteq> CHR ''='') kv))"

definition parse_url :: "string \<Rightarrow> plain_url" where
  "parse_url u =
     \<lparr>address = takeWhile (\<lambda>c. c \<noteq> CHR ''?'') u,
      query_items =
        (let q = drop 1 (dropWhile (\<lambda>c. c \<noteq> CHR ''?'') u)
         in if q = [] then [] else map parse_item (split_on CHR ''&'' q))\<rparr>"

fun join :: "string \<Rightarrow> string list \<Rightarrow> string" where
  \<comment> \<open>\<open>sep.join(xs)\<close>\<close>
  "join sep [] = []"
| "join sep [x] = x"
| "join sep (x # y # ys) = x @ sep @ join sep (y # ys)"

definition show_url :: "plain_url \<Rightarrow> string" where
  "show_url u =
     (if query_items u = [] then address u
      else address u @ ''?'' @ join ''&'' (map (\<lambda>kv. fst kv @ ''='' @ snd kv) (query_items u)))"

definition plain_qt :: "(plain_url, (string \<times> string) list) qt" where
  "plain_qt =
     \<lparr>QUrl = parse_url,
      QUrlQuery = query_items,
      addQueryItem = (\<lambda>q k v. q @ [(k, v)]),
      setQuery = (\<lambda>u q. u\<lparr>query_items := q\<rparr>),
      url_text = show_url\<rparr>"

subsection \<open>fetchResults and handle_response\<close>

definition search_url :: string where
  "search_url = ''https://api3.geo.admin.ch/rest/services/api/SearchServer''"

definition search_params :: "string \<Rightarrow> locator_filter \<Rightarrow> (string \<times> string) list" where
  \<comment> \<open>the dict \<open>params\<close> of fetchResults\<close>
  "search_params search st =
     [(''type'', ''locations''),
      (''searchText'', search),
      (''returnGeometry'', ''true''),
      (''lang'', lang st),
      (''sr'', s_crs (settings st))]"

definition abort :: "nat \<Rightarrow> locator_filter \<Rightarrow> locator_filter" where
  \<comment> \<open>\<open>reply.abort()\<close>\<close>
  "abort h st = st\<lparr>running := removeAll h (running st), aborted := aborted st @ [h]\<rparr>"

definition isRunning :: "nat \<Rightarrow> locator_filter \<Rightarrow> bool" where
  "isRunning h st = (h \<in> set (running st))"

definition step ::
  "error + 'a \<Rightarrow> locator_filter \<Rightarrow> ('a \<Rightarrow> error option \<times> locator_filter)
    \<Rightarrow> error option \<times> locator_filter" where
  \<comment> \<open>the next statement: an exception leaves with the state reached so far\<close>
  "step m st f = (case m of Inl e \<Rightarrow> (Some e, st) | Inr v \<Rightarrow> f v)"

definition attr :: "json \<Rightarrow> string \<Rightarrow> error + json" where
  \<comment> \<open>\<open>loc['attrs'][k]\<close>\<close>
  "attr loc k = bind (py_getitem loc ''attrs'') (\<lambda>a. py_getitem a k)"

definition handle_loc ::
  "bool \<Rightarrow> (string \<Rightarrow> string) \<Rightarrow> json \<Rightarrow> locator_filter \<Rightarrow> error option \<times> locator_filter" where
  \<comment> \<open>the body of the loop of handle_response. The arguments of a debug message are
      evaluated whether or not \<open>DEBUG\<close> is set.\<close>
  "handle_loc DEBUG tr loc st0 =
     step (bind (py_getitem loc ''attrs'') py_keys) st0 (\<lambda>ks.
     let st1 = dbg_info DEBUG (Keys ks) st0 in
     step (attr loc ''label'') st1 (\<lambda>label.
     let st2 = dbg_info DEBUG (Label label) st1 in
     step (attr loc ''detail'') st2 (\<lambda>detail.
     let st3 = dbg_info DEBUG (Detail detail) st2 in
     step (bind (attr loc ''rank'') rank2priority) st3 (\<lambda>priority.
     step (attr loc ''rank'') st3 (\<lambda>rank.
     let st4 = dbg_info DEBUG (Priority priority rank) st3 in
     step (bind (attr loc ''origin'') (translate_group tr)) st4 (\<lambda>category.
     step (attr loc ''origin'') st4 (\<lambda>origin.
     let st5 = dbg_info DEBUG (Category category origin) st4 in
     step (attr loc ''geom_st_box2d'') st5 (\<lambda>bbox.
     let st6 = dbg_info DEBUG (Bbox bbox) st5 in
     step (attr loc ''label'') st6 (\<lambda>display.
     step (bind (attr loc ''origin'') (translate_group tr)) st6 (\<lambda>grp.
     step (bind (attr loc ''geom_st_box2d'')
             (\<lambda>b. case b of JStr s \<Rightarrow> box2geometry s | _ \<Rightarrow> Inl TypeError)) st6 (\<lambda>rect.
     (None, st6\<lparr>results := results st6
        @ [\<lparr>displayString = display, group_name = grp, userData = rect\<rparr>]\<rparr>))))))))))))"

fun handle_locs ::
  "bool \<Rightarrow> (string \<Rightarrow> string) \<Rightarrow> json list \<Rightarrow> locator_filter \<Rightarrow> error option \<times> locator_filter" where
  \<comment> \<open>the loop \<open>for loc in data['results']\<close>\<close>
  "handle_locs DEBUG tr [] st = (None, st)"
| "handle_locs DEBUG tr (loc # locs) st =
     (case handle_loc DEBUG tr loc st of
        (Some e, st') \<Rightarrow> (Some e, st')
      | (None, st') \<Rightarrow> handle_locs DEBUG tr locs st')"

definition handle_response ::
  "bool \<Rightarrow> (string \<Rightarrow> string) \<Rightarrow> int \<Rightarrow> error + json \<Rightarrow> locator_filter
    \<Rightarrow> error option \<times> locator_filter" where
  "handle_response DEBUG tr status_code content st =
     (if status_code \<noteq> 200 then (None, info (StatusCode status_code) st)
      else step content st (\<lambda>data.
           step (bind (py_getitem data ''results'') py_iter) st (\<lambda>locs.
           handle_locs DEBUG tr locs st)))"

definition fetch_issue ::
  "bool \<Rightarrow> ('u, 'q) qt \<Rightarrow> string \<Rightarrow> locator_filter \<Rightarrow> nat option \<times> locator_filter" where
  \<comment> \<open>fetchResults up to the call of the network: the request it issues, if any\<close>
  "fetch_issue DEBUG Q search st0 =
     (let st1 = dbg_info DEBUG StartSearch st0 in
      if length search < 2 then (None, st1)
      else
        let st2 = (case reply st1 of
                     None \<Rightarrow> st1
                   | Some h \<Rightarrow> if isRunning h st1 then abort h st1 else st1);
            u = url_with_param Q search_url (search_params search st2);
            st3 = dbg_info DEBUG (UrlMessage u) st2;
            n = length (requests st3)
        in (Some n,
            st3\<lparr>requests := requests st3
                   @ [\<lparr>url = u, headers = [(''User-Agent'', USER_AGENT)], blocking = True\<rparr>],
                 running := running st3 @ [n]\<rparr>))"

definition fetch_finish ::
  "bool \<Rightarrow> (string \<Rightarrow> string) \<Rightarrow> nat \<Rightarrow> outcome \<Rightarrow> locator_filter
    \<Rightarrow> error option \<times> locator_filter" where
  \<comment> \<open>fetchResults from the return of the network call\<close>
  "fetch_finish DEBUG tr n out st0 =
     (let st1 = st0\<lparr>running := removeAll n (running st0)\<rparr> in
      case out of
        Response status_code content \<Rightarrow> handle_response DEBUG tr status_code content st1
      | UserAbort \<Rightarrow> (None, st1)
      | RequestFailure err \<Rightarrow> (None, info (RequestFailed err) st1))"

definition fetchResults ::
  "bool \<Rightarrow> (string \<Rightarrow> string) \<Rightarrow> ('u, 'q) qt \<Rightarrow> string \<Rightarrow> outcome \<Rightarrow> locator_filter
    \<Rightarrow> error option \<times> locator_filter" where
  \<comment> \<open>one call: the network call blocks, \<open>out\<close> is what it yields\<close>
  "fetchResults DEBUG tr Q search out st =
     (case fetch_issue DEBUG Q search st of
        (None, st') \<Rightarrow> (None, st')
      | (Some n, st') \<Rightarrow> fetch_finish DEBUG tr n out st')"

subsection \<open>beautify_group and break_camelcase\<close>

definition leading_digits :: regex where
  \<comment> \<open>\<open>^\d+\<close>\<close>
  "leading_digits = Seq Bol (Plus Digit)"

definition camel_pattern :: regex where
  \<comment> \<open>\<open>.+?(?:(?<=[a-z])(?=[A-Z])|(?<=[A-Z])(?=[A-Z][a-z])|$)\<close>\<close>
  "camel_pattern =
     Seq (PlusLazy AnyChar)
       (Alt (Seq (LookBehind Lower) (LookAhead (Chars Upper)))
         (Alt (Seq (LookBehind Upper) (LookAhead (Seq (Chars Upper) (Chars Lower))))
           Eol))"

definition break_camelcase :: "string \<Rightarrow> string" where
  "break_camelcase identifier = join '' '' (findall camel_pattern identifier)"

definition replace_char :: "char \<Rightarrow> char \<Rightarrow> string \<Rightarrow> string" where
  \<comment> \<open>\<open>s.replace(a, b)\<close> for one-character strings\<close>
  "replace_char a b s = map (\<lambda>c. if c = a then b else c) s"

definition beautify_group :: "settings \<Rightarrow> string \<Rightarrow> string" where
  "beautify_group stg g0 =
     (let g1 = (if s_remove_leading_digits stg then sub leading_digits [] g0 else g0);
          g2 = (if s_replace_underscore stg then replace_char CHR ''_'' CHR '' '' g1 else g1);
          g3 = (if s_break_camelcase stg then break_camelcase g2 else g2)
      in g3)"

section \<open>Notions of the specification\<close>

text \<open>
  The categories of the specification, each with the source text translate_group
  hands to the translation, and the origin keys of its table.
\<close>

datatype category = ZipCode | MunicipalBoundary | District | Canton | Index | Address | Parcel

fun category_text :: "category \<Rightarrow> string" where
  "category_text ZipCode = ''ZIP code''"
| "category_text MunicipalBoundary = ''Municipal boundaries''"
| "category_text District = ''District''"
| "category_text Canton = ''Cantons''"
| "category_text Index = ''Index''"
| "category_text Address = ''Address''"
| "category_text Parcel = ''Parcel''"

definition known_origins :: "string list" where
  "known_origins =
     [''zipcode'', ''gg25'', ''district'', ''kantone'', ''gazetteer'', ''address'', ''parcel'']"

text \<open>
  The pattern of the specification for a numeric token, and the texts on which it is
  compared with the pattern of the code.
\<close>

definition spec_pattern :: regex where
  \<comment> \<open>the pattern in the words of the specification: \<open>\d+(\.\d+)?\<close>\<close>
  "spec_pattern = Seq (Plus Digit) (Opt (Seq (Chars (Lit CHR ''.'')) (Plus Digit)))"

definition only_digit_words :: "string \<Rightarrow> bool" where
  \<comment> \<open>no letter, underscore or other word character but the digits\<close>
  "only_digit_words s = list_all (\<lambda>c. \<not> is_word c \<or> is_digit c) s"

definition first_end :: "string \<Rightarrow> nat \<Rightarrow> nat" where
  \<comment> \<open>where the longest number that starts at \<open>i\<close> ends\<close>
  "first_end s i =
     (let j = i + run Digit s i
      in if j < length s \<and> s ! j = CHR ''.'' \<and> 0 < run Digit s (Suc j)
         then Suc j + run Digit s (Suc j) else j)"

definition inside_run :: "string \<Rightarrow> nat \<Rightarrow> bool" where
  \<comment> \<open>position \<open>i\<close> lies between two digits\<close>
  "inside_run s i = (0 < i \<and> i < length s \<and> is_digit (s ! (i - 1)) \<and> is_digit (s ! i))"




section \<open>Instances for the examples\<close>

definition example_settings :: settings where
  "example_settings =
     \<lparr>s_lang = [], s_crs = ''2056'', s_remove_leading_digits = True,
      s_replace_underscore = True, s_break_camelcase = True\<rparr>"



section \<open>Rounding: how a float is computed\<close>

lemma pow2_powi: "pow2 k = 2 powi k"
  by (simp add: pow2_def power_int_def field_simps power_inverse)

lemma pow2_pos: "0 < pow2 k"
  by (simp add: pow2_powi)

lemma pow2_add: "pow2 (a + b) = pow2 a * pow2 b"
  by (simp add: pow2_powi power_int_add)

lemma pow2_less: "a < b \<Longrightarrow> pow2 a < pow2 b"
  by (simp add: pow2_powi power_int_strict_increasing)

lemma pow2_less_cancel: "pow2 a < pow2 b \<Longrightarrow> a < b"
proof (rule ccontr)
  assume h: "pow2 a < pow2 b" and "\<not> a < b"
  then have "b \<le> a" by simp
  then have "pow2 b \<le> pow2 a"
    by (simp add: pow2_powi power_int_increasing)
  with h show False by simp
qed

lemma of_int_bitlen:
  assumes "0 < p"
  shows "pow2 (bitlen p - 1) \<le> of_int p" and "of_int p < pow2 (bitlen p)"
proof -
  from bitlen_bounds [OF assms]
  have a: "2 ^ nat (bitlen p - 1) \<le> p" and b: "p < 2 ^ nat (bitlen p)"
    by simp_all
  have pos: "1 \<le> bitlen p"
    using assms by (simp add: bitlen_alt_def)
  have "(of_int (2 ^ nat (bitlen p - 1)) :: rat) \<le> of_int p"
    using a by (simp only: of_int_le_iff)
  then show "pow2 (bitlen p - 1) \<le> of_int p"
    using pos by (simp add: pow2_def)
  have "(of_int p :: rat) < of_int (2 ^ nat (bitlen p))"
    using b by (simp only: of_int_less_iff)
  then show "of_int p < pow2 (bitlen p)"
    using pos by (simp add: pow2_def)
qed

lemma ilog2_bounds:
  assumes "0 < x"
  shows "pow2 (ilog2 x) \<le> x \<and> x < pow2 (ilog2 x + 1)"
proof -
  obtain p q where pq: "quotient_of x = (p, q)"
    by (cases "quotient_of x")
  then have q: "0 < q" and x: "x = of_int p / of_int q"
    by (simp_all add: quotient_of_denom_pos quotient_of_div)
  from assms x q have p: "0 < p"
    by (simp add: zero_less_divide_iff)
  define k where "k = bitlen p - bitlen q"
  have qr: "(0::rat) < of_int q" using q by simp
  have lo: "pow2 (k - 1) < x"
  proof -
    have "pow2 (k - 1) * of_int q < pow2 (k - 1) * pow2 (bitlen q)"
      using of_int_bitlen(2) [OF q] pow2_pos by simp
    also have "\<dots> = pow2 (bitlen p - 1)"
      by (simp add: k_def flip: pow2_add)
    also have "\<dots> \<le> of_int p"
      by (rule of_int_bitlen(1) [OF p])
    finally show ?thesis
      using qr by (simp add: x pos_less_divide_eq)
  qed
  have hi: "x < pow2 (k + 1)"
  proof -
    have "of_int p < pow2 (bitlen p)"
      by (rule of_int_bitlen(2) [OF p])
    also have "\<dots> = pow2 (k + 1) * pow2 (bitlen q - 1)"
      by (simp add: k_def flip: pow2_add)
    also have "\<dots> \<le> pow2 (k + 1) * of_int q"
      using of_int_bitlen(1) [OF q] pow2_pos by simp
    finally show ?thesis
      using qr by (simp add: x pos_divide_less_eq)
  qed
  have il: "ilog2 x = (if pow2 k \<le> x then k else k - 1)"
    by (simp add: ilog2_def pq k_def Let_def)
  show ?thesis
  proof (cases "pow2 k \<le> x")
    case True
    with il hi show ?thesis by simp
  next
    case False
    with il lo show ?thesis by simp
  qed
qed

lemma ilog2_unique:
  assumes "0 < x" "pow2 e \<le> x" "x < pow2 (e + 1)"
  shows "ilog2 x = e"
proof -
  from ilog2_bounds [OF assms(1)]
  have a: "pow2 (ilog2 x) \<le> x" and b: "x < pow2 (ilog2 x + 1)"
    by simp_all
  from assms(2) b have "pow2 e < pow2 (ilog2 x + 1)" by simp
  then have "e < ilog2 x + 1" by (rule pow2_less_cancel)
  moreover from a assms(3) have "pow2 (ilog2 x) < pow2 (e + 1)" by simp
  then have "ilog2 x < e + 1" by (rule pow2_less_cancel)
  ultimately show ?thesis by simp
qed

lemma round_half_even_near:
  assumes "\<bar>x - of_int m\<bar> < 1 / 2"
  shows "round_half_even x = m"
proof -
  have f: "of_int \<lfloor>x\<rfloor> \<le> x" "x < of_int \<lfloor>x\<rfloor> + 1"
    by linarith+
  from assms have a: "x - of_int m < 1 / 2" "of_int m - x < 1 / 2"
    by linarith+
  from f a have "(of_int \<lfloor>x\<rfloor> :: rat) < of_int m + 1" "(of_int m :: rat) < of_int \<lfloor>x\<rfloor> + 2"
    by linarith+
  then have "(of_int \<lfloor>x\<rfloor> :: rat) < of_int (m + 1)" "(of_int m :: rat) < of_int (\<lfloor>x\<rfloor> + 2)"
    by simp_all
  then have "\<lfloor>x\<rfloor> < m + 1" "m < \<lfloor>x\<rfloor> + 2"
    by (simp_all only: of_int_less_iff)
  then consider "m = \<lfloor>x\<rfloor>" | "m = \<lfloor>x\<rfloor> + 1"
    by linarith
  then show ?thesis
  proof cases
    case 1
    with a show ?thesis
      by (simp add: round_half_even_def Let_def)
  next
    case 2
    with a have "1 / 2 < x - of_int \<lfloor>x\<rfloor>"
      by simp
    with 2 show ?thesis
      by (simp add: round_half_even_def Let_def)
  qed
qed

lemma round_half_even_tie:
  assumes "x = of_int n + 1 / 2"
  shows "round_half_even x = (if even n then n else n + 1)"
proof -
  have "\<lfloor>x\<rfloor> = n"
    by (rule floor_unique) (simp_all add: assms)
  then show ?thesis
    by (simp add: round_half_even_def Let_def assms)
qed

lemma fl_round:
  assumes "0 < x" "pow2 e \<le> x" "x < pow2 (e + 1)"
    and "k = max e (- 1022) - 52"
    and "round_half_even (x / pow2 k) = m"
    and "y = of_int m * pow2 k"
    and "y < pow2 1024"
  shows "fl x = Finite y"
  using assms by (simp add: fl_def Let_def ilog2_unique [OF assms(1-3)])

lemma fl_minus: "fl (- x) = dneg (fl x)"
  by (simp add: fl_def Let_def)

section \<open>The priorities of the seven ranks\<close>

lemma fl_1_7: "fl (1 / 7) = Finite (2573485501354569 / 18014398509481984)"
proof (rule fl_round [where e = "- 3" and k = "- 55" and m = "5146971002709138"])
  show "round_half_even (1 / 7 / pow2 (- 55)) = 5146971002709138"
    by (rule round_half_even_near) (simp add: pow2_def)
qed (simp_all add: pow2_def)

lemma fl_one_minus_1_7: "fl (- (2573485501354569 / 18014398509481984) + 1) = Finite (1930114126015927 / 2251799813685248)"
proof (rule fl_round [where e = "- 1" and k = "- 53" and m = "7720456504063708"])
  show "round_half_even ((- (2573485501354569 / 18014398509481984) + 1) / pow2 (- 53)) = 7720456504063708"
  proof -
    have "round_half_even ((- (2573485501354569 / 18014398509481984) + 1) / pow2 (- 53)) = (if even (7720456504063707::int) then 7720456504063707 else 7720456504063707 + 1)"
      by (rule round_half_even_tie) (simp add: pow2_def)
    then show ?thesis
      by simp
  qed
qed (simp_all add: pow2_def)

lemma fl_2_7: "fl (2 / 7) = Finite (2573485501354569 / 9007199254740992)"
proof (rule fl_round [where e = "- 2" and k = "- 54" and m = "5146971002709138"])
  show "round_half_even (2 / 7 / pow2 (- 54)) = 5146971002709138"
    by (rule round_half_even_near) (simp add: pow2_def)
qed (simp_all add: pow2_def)

lemma fl_one_minus_2_7: "fl (- (2573485501354569 / 9007199254740992) + 1) = Finite (6433713753386423 / 9007199254740992)"
proof (rule fl_round [where e = "- 1" and k = "- 53" and m = "6433713753386423"])
  show "round_half_even ((- (2573485501354569 / 9007199254740992) + 1) / pow2 (- 53)) = 6433713753386423"
    by (rule round_half_even_near) (simp add: pow2_def)
qed (simp_all add: pow2_def)

lemma fl_3_7: "fl (3 / 7) = Finite (7720456504063707 / 18014398509481984)"
proof (rule fl_round [where e = "- 2" and k = "- 54" and m = "7720456504063707"])
  show "round_half_even (3 / 7 / pow2 (- 54)) = 7720456504063707"
    by (rule round_half_even_near) (simp add: pow2_def)
qed (simp_all add: pow2_def)

lemma fl_one_minus_3_7: "fl (- (7720456504063707 / 18014398509481984) + 1) = Finite (2573485501354569 / 4503599627370496)"
proof (rule fl_round [where e = "- 1" and k = "- 53" and m = "5146971002709138"])
  show "round_half_even ((- (7720456504063707 / 18014398509481984) + 1) / pow2 (- 53)) = 5146971002709138"
  proof -
    have "round_half_even ((- (7720456504063707 / 18014398509481984) + 1) / pow2 (- 53)) = (if even (5146971002709138::int) then 5146971002709138 else 5146971002709138 + 1)"
      by (rule round_half_even_tie) (simp add: pow2_def)
    then show ?thesis
      by simp
  qed
qed (simp_all add: pow2_def)

lemma fl_4_7: "fl (4 / 7) = Finite (2573485501354569 / 4503599627370496)"
proof (rule fl_round [where e = "- 1" and k = "- 53" and m = "5146971002709138"])
  show "round_half_even (4 / 7 / pow2 (- 53)) = 5146971002709138"
    by (rule round_half_even_near) (simp add: pow2_def)
qed (simp_all add: pow2_def)

lemma fl_one_minus_4_7: "fl (- (2573485501354569 / 4503599627370496) + 1) = Finite (1930114126015927 / 4503599627370496)"
proof (rule fl_round [where e = "- 2" and k = "- 54" and m = "7720456504063708"])
  show "round_half_even ((- (2573485501354569 / 4503599627370496) + 1) / pow2 (- 54)) = 7720456504063708"
    by (rule round_half_even_near) (simp add: pow2_def)
qed (simp_all add: pow2_def)

lemma fl_5_7: "fl (5 / 7) = Finite (6433713753386423 / 9007199254740992)"
proof (rule fl_round [where e = "- 1" and k = "- 53" and m = "6433713753386423"])
  show "round_half_even (5 / 7 / pow2 (- 53)) = 6433713753386423"
    by (rule round_half_even_near) (simp add: pow2_def)
qed (simp_all add: pow2_def)

lemma fl_one_minus_5_7: "fl (- (6433713753386423 / 9007199254740992) + 1) = Finite (2573485501354569 / 9007199254740992)"
proof (rule fl_round [where e = "- 2" and k = "- 54" and m = "5146971002709138"])
  show "round_half_even ((- (6433713753386423 / 9007199254740992) + 1) / pow2 (- 54)) = 5146971002709138"
    by (rule round_half_even_near) (simp add: pow2_def)
qed (simp_all add: pow2_def)

lemma fl_6_7: "fl (6 / 7) = Finite (7720456504063707 / 9007199254740992)"
proof (rule fl_round [where e = "- 1" and k = "- 53" and m = "7720456504063707"])
  show "round_half_even (6 / 7 / pow2 (- 53)) = 7720456504063707"
    by (rule round_half_even_near) (simp add: pow2_def)
qed (simp_all add: pow2_def)

lemma fl_one_minus_6_7: "fl (- (7720456504063707 / 9007199254740992) + 1) = Finite (1286742750677285 / 9007199254740992)"
proof (rule fl_round [where e = "- 3" and k = "- 55" and m = "5146971002709140"])
  show "round_half_even ((- (7720456504063707 / 9007199254740992) + 1) / pow2 (- 55)) = 5146971002709140"
    by (rule round_half_even_near) (simp add: pow2_def)
qed (simp_all add: pow2_def)

lemma fl_7_7: "fl (1) = Finite (1)"
proof (rule fl_round [where e = "0" and k = "- 52" and m = "4503599627370496"])
  show "round_half_even (1 / pow2 (- 52)) = 4503599627370496"
    by (rule round_half_even_near) (simp add: pow2_def)
qed (simp_all add: pow2_def)

lemma rank2priority_1: "rank2priority (JInt 1) = Inr (Finite (1930114126015927 / 2251799813685248))"
proof -
  have "fl (- (1 / 7)) = Finite (- (2573485501354569 / 18014398509481984))"
    by (simp only: fl_minus fl_1_7 dneg.simps)
  then have a: "fl (of_int (- 1) / of_nat 7) = Finite (- (2573485501354569 / 18014398509481984))"
    by simp
  have b: "fl (- (2573485501354569 / 18014398509481984) + of_nat 1) = Finite (1930114126015927 / 2251799813685248)"
    using fl_one_minus_1_7 by simp
  show ?thesis
    by (simp only: rank2priority_def bind_def py_neg.simps py_truediv.simps py_add.simps
        py_float.simps dadd.simps a b sum.case double.case json.case)
qed

lemma rank2priority_2: "rank2priority (JInt 2) = Inr (Finite (6433713753386423 / 9007199254740992))"
proof -
  have "fl (- (2 / 7)) = Finite (- (2573485501354569 / 9007199254740992))"
    by (simp only: fl_minus fl_2_7 dneg.simps)
  then have a: "fl (of_int (- 2) / of_nat 7) = Finite (- (2573485501354569 / 9007199254740992))"
    by simp
  have b: "fl (- (2573485501354569 / 9007199254740992) + of_nat 1) = Finite (6433713753386423 / 9007199254740992)"
    using fl_one_minus_2_7 by simp
  show ?thesis
    by (simp only: rank2priority_def bind_def py_neg.simps py_truediv.simps py_add.simps
        py_float.simps dadd.simps a b sum.case double.case json.case)
qed

lemma rank2priority_3: "rank2priority (JInt 3) = Inr (Finite (2573485501354569 / 4503599627370496))"
proof -
  have "fl (- (3 / 7)) = Finite (- (7720456504063707 / 18014398509481984))"
    by (simp only: fl_minus fl_3_7 dneg.simps)
  then have a: "fl (of_int (- 3) / of_nat 7) = Finite (- (7720456504063707 / 18014398509481984))"
    by simp
  have b: "fl (- (7720456504063707 / 18014398509481984) + of_nat 1) = Finite (2573485501354569 / 4503599627370496)"
    using fl_one_minus_3_7 by simp
  show ?thesis
    by (simp only: rank2priority_def bind_def py_neg.simps py_truediv.simps py_add.simps
        py_float.simps dadd.simps a b sum.case double.case json.case)
qed

lemma rank2priority_4: "rank2priority (JInt 4) = Inr (Finite (1930114126015927 / 4503599627370496))"
proof -
  have "fl (- (4 / 7)) = Finite (- (2573485501354569 / 4503599627370496))"
    by (simp only: fl_minus fl_4_7 dneg.simps)
  then have a: "fl (of_int (- 4) / of_nat 7) = Finite (- (2573485501354569 / 4503599627370496))"
    by simp
  have b: "fl (- (2573485501354569 / 4503599627370496) + of_nat 1) = Finite (1930114126015927 / 4503599627370496)"
    using fl_one_minus_4_7 by simp
  show ?thesis
    by (simp only: rank2priority_def bind_def py_neg.simps py_truediv.simps py_add.simps
        py_float.simps dadd.simps a b sum.case double.case json.case)
qed

lemma rank2priority_5: "rank2priority (JInt 5) = Inr (Finite (2573485501354569 / 9007199254740992))"
proof -
  have "fl (- (5 / 7)) = Finite (- (6433713753386423 / 9007199254740992))"
    by (simp only: fl_minus fl_5_7 dneg.simps)
  then have a: "fl (of_int (- 5) / of_nat 7) = Finite (- (6433713753386423 / 9007199254740992))"
    by simp
  have b: "fl (- (6433713753386423 / 9007199254740992) + of_nat 1) = Finite (2573485501354569 / 9007199254740992)"
    using fl_one_minus_5_7 by simp
  show ?thesis
    by (simp only: rank2priority_def bind_def py_neg.simps py_truediv.simps py_add.simps
        py_float.simps dadd.simps a b sum.case double.case json.case)
qed

lemma rank2priority_6: "rank2priority (JInt 6) = Inr (Finite (1286742750677285 / 9007199254740992))"
proof -
  have "fl (- (6 / 7)) = Finite (- (7720456504063707 / 9007199254740992))"
    by (simp only: fl_minus fl_6_7 dneg.simps)
  then have a: "fl (of_int (- 6) / of_nat 7) = Finite (- (7720456504063707 / 9007199254740992))"
    by simp
  have b: "fl (- (7720456504063707 / 9007199254740992) + of_nat 1) = Finite (1286742750677285 / 9007199254740992)"
    using fl_one_minus_6_7 by simp
  show ?thesis
    by (simp only: rank2priority_def bind_def py_neg.simps py_truediv.simps py_add.simps
        py_float.simps dadd.simps a b sum.case double.case json.case)
qed

lemma rank2priority_7: "rank2priority (JInt 7) = Inr (Finite (0))"
proof -
  have "fl (- (1)) = Finite (- (1))"
    by (simp only: fl_minus fl_7_7 dneg.simps)
  then have a: "fl (of_int (- 7) / of_nat 7) = Finite (- (1))"
    by simp
  have b: "fl (- (1) + of_nat 1) = Finite (0)"
    by (simp add: fl_def)
  show ?thesis
    by (simp only: rank2priority_def bind_def py_neg.simps py_truediv.simps py_add.simps
        py_float.simps dadd.simps a b sum.case double.case json.case)
qed

section \<open>The language and coordinate system of the example\<close>



section \<open>The category table\<close>

text \<open>
  C3. translate_group maps each of the seven origin keys to its category (zipcode to
  ZipCode, gg25 to MunicipalBoundary, district to District, kantone to Canton,
  gazetteer to Index, address to Address, parcel to Parcel), and on every other string
  it raises the NameError that carries the string: the unknown-category failure.
\<close>

theorem translate_group_table:
  "translate_group tr (JStr ''zipcode'') = Inr (tr (category_text ZipCode))
   \<and> translate_group tr (JStr ''gg25'') = Inr (tr (category_text MunicipalBoundary))
   \<and> translate_group tr (JStr ''district'') = Inr (tr (category_text District))
   \<and> translate_group tr (JStr ''kantone'') = Inr (tr (category_text Canton))
   \<and> translate_group tr (JStr ''gazetteer'') = Inr (tr (category_text Index))
   \<and> translate_group tr (JStr ''address'') = Inr (tr (category_text Address))
   \<and> translate_group tr (JStr ''parcel'') = Inr (tr (category_text Parcel))
   \<and> (g \<notin> set known_origins \<longrightarrow> translate_group tr (JStr g) = Inl (NameError (JStr g)))"
  by (simp add: translate_group_def known_origins_def)

theorem translate_group_table_witness:
  "''canton'' \<notin> set known_origins
   \<and> translate_group (\<lambda>s. s) (JStr ''canton'') = Inl (NameError (JStr ''canton''))
   \<and> translate_group (\<lambda>s. s) (JStr ''kantone'') = Inr ''Cantons''"
  using translate_group_table [of "\<lambda>s. s" "''canton''"]
  by (simp add: known_origins_def)

section \<open>Short search texts\<close>

text \<open>
  C9. For every search text of length 0 or 1, fetchResults returns at once: it issues
  no request, emits no result and raises nothing. The state it leaves differs from
  the one it found by the debug message of its first line at most.
\<close>

theorem fetchResults_short_search:
  "length search < 2 \<Longrightarrow>
     fetchResults DEBUG tr Q search out st = (None, dbg_info DEBUG StartSearch st)
     \<and> requests (snd (fetchResults DEBUG tr Q search out st)) = requests st
     \<and> running (snd (fetchResults DEBUG tr Q search out st)) = running st
     \<and> results (snd (fetchResults DEBUG tr Q search out st)) = results st"
  by (simp add: fetchResults_def fetch_issue_def Let_def dbg_info_def info_def)

theorem fetchResults_short_search_witness:
  "length ''B'' < 2
   \<and> fetchResults True (\<lambda>s. s) plain_qt ''B'' (Response 200 (Inr JNull)) (init example_settings ''German'')
       = (None, (init example_settings ''German'')\<lparr>log := [StartSearch]\<rparr>)"
  using fetchResults_short_search [of "''B''" True "\<lambda>s. s" plain_qt "Response 200 (Inr JNull)" "init example_settings ''German''"]
  by (simp add: dbg_info_def info_def init_def)

section \<open>The priority of a rank\<close>

lemma rank_cases:
  assumes "1 \<le> r" "r \<le> 7"
  obtains "r = 1" | "r = 2" | "r = 3" | "r = 4" | "r = 5" | "r = 6" | "r = (7::int)"
  using assms by arith

lemma rank2priority_bounds:
  assumes "1 \<le> r" "r \<le> 7"
  shows "\<exists>p. rank2priority (JInt r) = Inr (Finite p) \<and> 0 \<le> p \<and> p \<le> 1
           \<and> \<bar>p - (1 - of_int r / 7)\<bar> < 1 / 2 ^ 53"
  using assms
proof (cases rule: rank_cases)
  case 1
  then show ?thesis
    by (intro exI [of _ "1930114126015927 / 2251799813685248"]) (simp add: rank2priority_1)
next
  case 2
  then show ?thesis
    by (intro exI [of _ "6433713753386423 / 9007199254740992"]) (simp add: rank2priority_2)
next
  case 3
  then show ?thesis
    by (intro exI [of _ "2573485501354569 / 4503599627370496"]) (simp add: rank2priority_3)
next
  case 4
  then show ?thesis
    by (intro exI [of _ "1930114126015927 / 4503599627370496"]) (simp add: rank2priority_4)
next
  case 5
  then show ?thesis
    by (intro exI [of _ "2573485501354569 / 9007199254740992"]) (simp add: rank2priority_5)
next
  case 6
  then show ?thesis
    by (intro exI [of _ "1286742750677285 / 9007199254740992"]) (simp add: rank2priority_6)
next
  case 7
  then show ?thesis
    by (intro exI [of _ "0"]) (simp add: rank2priority_7)
qed

text \<open>
  C4, as the specification states it: for a rank from 1 to 7, rank2priority is
  \<open>1 - rank/7\<close> without rounding, so rank 1 gives 6/7. It does not: the result is a
  float, and for rank 1 it is neither the rational 6/7 nor the float nearest to 6/7
  (Python prints 0.8571428571428572 for the one and 0.8571428571428571 for the other).
\<close>

theorem rank2priority_rank_1_differs:
  "rank2priority (JInt 1) \<noteq> Inr (Finite (6 / 7))
   \<and> rank2priority (JInt 1) \<noteq> Inr (fl (6 / 7))"
  by (simp add: rank2priority_1 fl_6_7)

text \<open>
  C4, amended. For every integer rank from 1 to 7, rank2priority returns a finite
  float in [0, 1] that differs from \<open>1 - rank/7\<close> by less than \<open>2\<^sup>-\<^sup>5\<^sup>3\<close>: the quotient
  and the sum are each rounded to binary64. Rank 7 gives exactly 0.0; rank 1 gives
  \<open>1930114126015927 / 2\<^sup>5\<^sup>1\<close> and rank 4 gives \<open>1930114126015927 / 2\<^sup>5\<^sup>2\<close>, the floats
  next above those nearest to 6/7 and 3/7.
\<close>

theorem rank2priority_rounded:
  "1 \<le> r \<Longrightarrow> r \<le> 7 \<Longrightarrow>
     (\<exists>p. rank2priority (JInt r) = Inr (Finite p) \<and> 0 \<le> p \<and> p \<le> 1
           \<and> \<bar>p - (1 - of_int r / 7)\<bar> < 1 / 2 ^ 53)
     \<and> rank2priority (JInt 1) = Inr (Finite (1930114126015927 / 2251799813685248))
     \<and> rank2priority (JInt 4) = Inr (Finite (1930114126015927 / 4503599627370496))
     \<and> rank2priority (JInt 7) = Inr (Finite 0)"
  by (intro conjI rank2priority_bounds rank2priority_1 rank2priority_4 rank2priority_7)

theorem rank2priority_rounded_witness:
  "(1::int) \<le> 4 \<and> (4::int) \<le> 7
   \<and> (\<exists>p. rank2priority (JInt 4) = Inr (Finite p) \<and> 0 \<le> p \<and> p \<le> 1
           \<and> \<bar>p - (1 - of_int 4 / 7)\<bar> < 1 / 2 ^ 53)"
proof -
  have h: "(1::int) \<le> 4" "(4::int) \<le> 7"
    by simp_all
  from rank2priority_rounded [OF h]
  have "\<exists>p. rank2priority (JInt 4) = Inr (Finite p) \<and> 0 \<le> p \<and> p \<le> 1
           \<and> \<bar>p - (1 - of_int 4 / 7)\<bar> < 1 / 2 ^ 53"
    by (rule conjunct1)
  with h show ?thesis
    by (intro conjI)
qed

section \<open>The url of a search\<close>





section \<open>Two searches at once\<close>

lemma fetch_issue_reply:
  "reply (snd (fetch_issue DEBUG Q search st)) = reply st"
  by (cases "reply st")
    (simp_all add: fetch_issue_def Let_def dbg_info_def info_def abort_def)

lemma fetch_issue_no_abort:
  "reply st = None \<Longrightarrow> aborted (snd (fetch_issue DEBUG Q search st)) = aborted st"
  by (simp add: fetch_issue_def Let_def dbg_info_def info_def)

lemma fetch_issue_running:
  "reply st = None \<Longrightarrow> 2 \<le> length search \<Longrightarrow>
   running (snd (fetch_issue DEBUG Q search st)) = running st @ [length (requests st)]"
  by (simp add: fetch_issue_def Let_def dbg_info_def info_def)

lemma fetch_issue_length:
  "2 \<le> length search \<Longrightarrow>
   length (requests (snd (fetch_issue DEBUG Q search st))) = Suc (length (requests st))"
  by (cases "reply st")
    (simp_all add: fetch_issue_def Let_def dbg_info_def info_def abort_def)

text \<open>
  C7. A search issued while the request of an earlier search of the same filter is in
  flight should abort that request first. fetchResults tests \<open>self.reply\<close> for this,
  but nothing ever assigns a request to \<open>self.reply\<close>: after two searches with no
  answer in between, both requests are in flight and none has been aborted.
\<close>

theorem overlapping_searches_not_aborted:
  "running (snd (fetch_issue False plain_qt ''Berne''
      (snd (fetch_issue False plain_qt ''Bern'' (init example_settings ''German''))))) = [0, 1]
   \<and> aborted (snd (fetch_issue False plain_qt ''Berne''
      (snd (fetch_issue False plain_qt ''Bern'' (init example_settings ''German''))))) = []
   \<and> reply (snd (fetch_issue False plain_qt ''Berne''
      (snd (fetch_issue False plain_qt ''Bern'' (init example_settings ''German''))))) = None"
proof -
  let ?st0 = "init example_settings ''German''"
  let ?st1 = "snd (fetch_issue False plain_qt ''Bern'' ?st0)"
  have r0: "reply ?st0 = None" "running ?st0 = []" "aborted ?st0 = []" "requests ?st0 = []"
    by (simp_all add: init_def)
  have r1: "reply ?st1 = None"
    by (simp add: fetch_issue_reply r0)
  have "running ?st1 = [0]" "aborted ?st1 = []" "length (requests ?st1) = 1"
    by (simp_all add: fetch_issue_running fetch_issue_no_abort fetch_issue_length r0)
  then show ?thesis
    by (simp add: fetch_issue_running fetch_issue_no_abort fetch_issue_reply r0)
qed

section \<open>The group label beautifier\<close>

lemma scan_none:
  "(\<And>j. i \<le> j \<Longrightarrow> ends r s j = []) \<Longrightarrow> scan r s i adv = []"
proof (induction r s i adv rule: scan.induct)
  case (1 r s i adv)
  have e: "ends r s i = []"
    using "1.prems" by simp
  show ?case
  proof (cases "length s < i")
    case True
    then show ?thesis
      by (subst scan.simps) simp
  next
    case False
    have "scan r s (Suc i) False = []"
      using False e "1.prems" by (intro "1.IH"(1)) simp_all
    with False e show ?thesis
      by (subst scan.simps) simp
  qed
qed

lemma in_class_Digit: "in_class Digit = is_digit"
  by (rule ext) simp

lemma ends_leading_digits_later: "0 < j \<Longrightarrow> ends leading_digits s j = []"
  by (simp add: leading_digits_def)

lemma ends_plus_nonempty:
  "0 < run c s i \<Longrightarrow> ends (Plus c) s i = (i + run c s i) # rev (map (\<lambda>k. i + k) [1 ..< run c s i])"
  by simp

lemma sub_leading_digits: "sub leading_digits [] g = dropWhile is_digit g"
proof (cases "run Digit g 0 = 0")
  case True
  then have "ends leading_digits g 0 = []"
    by (simp add: leading_digits_def)
  then have "\<And>j. 0 \<le> j \<Longrightarrow> ends leading_digits g j = []"
    using ends_leading_digits_later by (metis gr0I)
  then have "scan leading_digits g 0 False = []"
    by (rule scan_none)
  moreover from True have "dropWhile is_digit g = g"
    by (cases g) (auto simp: run_def)
  ultimately show ?thesis
    by (simp add: sub_def)
next
  case False
  define n where "n = run Digit g 0"
  with False have n: "0 < n" by simp
  have "ends leading_digits g 0 = n # rev (map (\<lambda>k. 0 + k) [1 ..< n])"
    using n ends_plus_nonempty [of Digit g 0] by (simp add: leading_digits_def n_def)
  moreover have "scan leading_digits g n False = []"
    using n by (intro scan_none ends_leading_digits_later) simp
  ultimately have "scan leading_digits g 0 False = [(0, n)]"
    using n by (subst scan.simps) simp
  moreover have "drop n g = dropWhile is_digit g"
    by (simp add: n_def run_def dropWhile_eq_drop in_class_Digit)
  ultimately show ?thesis
    by (simp add: sub_def)
qed

lemma break_camelcase_example: "break_camelcase '' CamelCaseWord'' = '' Camel Case Word''"
  by code_simp

lemma strip_example: "dropWhile is_digit ''12_CamelCaseWord'' = ''_CamelCaseWord''"
  by (simp add: is_digit_def code_point_def)

lemma beautify_group_example:
  "beautify_group example_settings ''12_CamelCaseWord'' = '' Camel Case Word''"
proof -
  have a: "sub leading_digits [] ''12_CamelCaseWord'' = ''_CamelCaseWord''"
    by (simp only: sub_leading_digits strip_example)
  have b: "replace_char CHR ''_'' CHR '' '' ''_CamelCaseWord'' = '' CamelCaseWord''"
    by (simp add: replace_char_def)
  show ?thesis
    by (simp add: beautify_group_def example_settings_def a b break_camelcase_example)
qed

text \<open>
  C6, as the specification states it: with the three toggles set,
  beautify_group turns \<open>12_CamelCaseWord\<close> into \<open>Camel Case Word\<close>. It does not: the
  underscore has become a space before the camel-case words are split, and that
  space stays in front.
\<close>

theorem beautify_group_example_differs:
  "beautify_group example_settings ''12_CamelCaseWord'' \<noteq> ''Camel Case Word''"
  by (simp add: beautify_group_example)

text \<open>
  C6, amended. beautify_group applies its three steps in the fixed order: remove the
  leading run of digits, replace every underscore by a space, split the camel-case
  words; each step is applied only when its toggle is set. With the three toggles set,
  \<open>12_CamelCaseWord\<close> becomes \<open>Camel Case Word\<close> with a space in front.
\<close>

theorem beautify_group_order:
  "beautify_group stg g =
     (if s_break_camelcase stg then break_camelcase else (\<lambda>x. x))
       ((if s_replace_underscore stg then replace_char CHR ''_'' CHR '' '' else (\<lambda>x. x))
         ((if s_remove_leading_digits stg then dropWhile is_digit else (\<lambda>x. x)) g))
   \<and> beautify_group example_settings ''12_CamelCaseWord'' = '' Camel Case Word''"
proof
  show "beautify_group stg g =
     (if s_break_camelcase stg then break_camelcase else (\<lambda>x. x))
       ((if s_replace_underscore stg then replace_char CHR ''_'' CHR '' '' else (\<lambda>x. x))
         ((if s_remove_leading_digits stg then dropWhile is_digit else (\<lambda>x. x)) g))"
    by (simp add: beautify_group_def Let_def sub_leading_digits)
  show "beautify_group example_settings ''12_CamelCaseWord'' = '' Camel Case Word''"
    by (rule beautify_group_example)
qed

section \<open>Numeric tokens\<close>

lemma box_pattern_spec: "box_pattern = Seq WordBoundary (Seq spec_pattern WordBoundary)"
  by (simp add: box_pattern_def spec_pattern_def)

subsection \<open>Runs\<close>

lemma run_le: "run c s i \<le> length s - i"
  using length_takeWhile_le [of "in_class c" "drop i s"] by (simp add: run_def)

lemma run_nth:
  assumes "k < run c s i"
  shows "i + k < length s \<and> in_class c (s ! (i + k))"
proof -
  from assms run_le [of c s i] have b: "i + k < length s"
    by simp
  from assms have "k < length (takeWhile (in_class c) (drop i s))"
    by (simp add: run_def)
  then have "takeWhile (in_class c) (drop i s) ! k \<in> set (takeWhile (in_class c) (drop i s))"
      and "takeWhile (in_class c) (drop i s) ! k = drop i s ! k"
    by (rule nth_mem, rule takeWhile_nth)
  then have "in_class c (drop i s ! k)"
    by (metis set_takeWhileD)
  with b show ?thesis
    by simp
qed

lemma run_stop:
  assumes "i + run c s i < length s"
  shows "\<not> in_class c (s ! (i + run c s i))"
proof -
  from assms have "length (takeWhile (in_class c) (drop i s)) < length (drop i s)"
    by (simp add: run_def)
  then have "\<not> in_class c (drop i s ! length (takeWhile (in_class c) (drop i s)))"
    by (rule nth_length_takeWhile)
  with assms show ?thesis
    by (simp add: run_def)
qed

lemma run_pos: "i < length s \<Longrightarrow> in_class c (s ! i) \<Longrightarrow> 0 < run c s i"
  by (cases "drop i s") (auto simp: run_def simp flip: Cons_nth_drop_Suc)

lemma run_zero: "i < length s \<Longrightarrow> \<not> in_class c (s ! i) \<Longrightarrow> run c s i = 0"
  by (cases "drop i s") (auto simp: run_def simp flip: Cons_nth_drop_Suc)

lemma run_beyond: "length s \<le> i \<Longrightarrow> run c s i = 0"
  by (simp add: run_def)

subsection \<open>The ends of the number pattern\<close>


lemma ends_Plus_Nil: "run c s i = 0 \<Longrightarrow> ends (Plus c) s i = []"
  by simp

lemma ends_fraction:
  "ends (Seq (Chars (Lit CHR ''.'')) (Plus Digit)) s j =
     (if j < length s \<and> s ! j = CHR ''.'' then ends (Plus Digit) s (Suc j) else [])"
  by simp

lemma ends_spec_pattern:
  "ends spec_pattern s i =
     concat (map (\<lambda>j. ends (Seq (Chars (Lit CHR ''.'')) (Plus Digit)) s j @ [j])
       (ends (Plus Digit) s i))"
proof -
  have "ends (Opt (Seq (Chars (Lit CHR ''.'')) (Plus Digit))) s =
      (\<lambda>j. ends (Seq (Chars (Lit CHR ''.'')) (Plus Digit)) s j @ [j])"
    by (rule ext) (simp only: ends.simps(4))
  then show ?thesis
    by (simp only: spec_pattern_def ends.simps(5))
qed

lemma concat_map_if_singleton:
  "concat (map (\<lambda>j. if P j then [j] else []) xs) = filter P xs"
  by (induction xs) simp_all

lemma ends_after_boundary:
  "ends (Seq WordBoundary r) s i = (if boundary s i then ends r s i else [])"
  by simp

lemma ends_box_pattern:
  "ends box_pattern s i =
     (if boundary s i then filter (boundary s) (ends spec_pattern s i) else [])"
proof -
  have w: "ends WordBoundary s = (\<lambda>j. if boundary s j then [j] else [])"
    by (rule ext) simp
  have "ends (Seq spec_pattern WordBoundary) s i = filter (boundary s) (ends spec_pattern s i)"
    by (simp only: ends.simps(5) w concat_map_if_singleton)
  then show ?thesis
    by (simp only: box_pattern_spec ends_after_boundary)
qed


subsection \<open>The matches of the pattern of box2geometry\<close>

lemma is_digit_word: "is_digit c \<Longrightarrow> is_word c"
  by (simp add: is_word_def)








lemma scan_match:
  "(i, e) \<in> set (scan r s p adv) \<Longrightarrow> e \<in> set (ends r s i)"
proof (induction r s p adv rule: scan.induct)
  case (1 r s p adv)
  show ?case
  proof (cases "length s < p")
    case True
    with "1.prems" show ?thesis
      by (subst (asm) scan.simps) simp
  next
    case False
    show ?thesis
    proof (cases "filter (\<lambda>e. \<not> (adv \<and> e = p)) (ends r s p)")
      case Nil
      with False "1.prems" have "(i, e) \<in> set (scan r s (Suc p) False)"
        by (subst (asm) scan.simps) simp
      with False Nil show ?thesis
        by (rule "1.IH"(1))
    next
      case (Cons x xs)
      then have "x \<in> set (filter (\<lambda>e. \<not> (adv \<and> e = p)) (ends r s p))"
        by simp
      then have x: "x \<in> set (ends r s p)"
        by simp
      from False Cons "1.prems"
      have "(i, e) = (p, x) \<or> (i, e) \<in> set (if x = p then scan r s p True else scan r s x False)"
        by (subst (asm) scan.simps) simp
      then show ?thesis
      proof
        assume "(i, e) = (p, x)"
        with x show ?thesis
          by simp
      next
        assume a: "(i, e) \<in> set (if x = p then scan r s p True else scan r s x False)"
        show ?thesis
        proof (cases "x = p")
          case True
          with a have "(i, e) \<in> set (scan r s p True)"
            by simp
          with False Cons True show ?thesis
            by (rule "1.IH"(2))
        next
          case ne: False
          with a have "(i, e) \<in> set (scan r s x False)"
            by simp
          with False Cons ne show ?thesis
            by (rule "1.IH"(3))
        qed
      qed
    qed
  qed
qed


section \<open>A malformed box in a batch\<close>

lemma results_dbg_info [simp]: "results (dbg_info DEBUG m st) = results st"
  by (simp add: dbg_info_def info_def)


lemma results_foldl_dbg_info [simp]:
  "results (foldl (\<lambda>s m. dbg_info DEBUG m s) st ms) = results st"
  by (induction ms arbitrary: st) simp_all















section \<open>The rectangle of a box text\<close>



















lemma findall_example_box:
  "findall box_pattern ''2600000.5 1200000 2601000 1201000.25''
     = [''2600000.5'', ''1200000'', ''2601000'', ''1201000.25'']"
  by code_simp




section \<open>Minus signs\<close>







section \<open>The tokens of the code and of the specification\<close>

subsection \<open>The first match at a position\<close>

lemma scan_step_Nil:
  "\<not> length s < i \<Longrightarrow> ends r s i = [] \<Longrightarrow> scan r s i False = scan r s (Suc i) False"
  by (subst scan.simps) simp

lemma scan_step_Cons:
  "\<not> length s < i \<Longrightarrow> ends r s i = e # es \<Longrightarrow> e \<noteq> i \<Longrightarrow>
   scan r s i False = (i, e) # scan r s e False"
  by (subst scan.simps) simp

lemma scan_beyond: "length s < i \<Longrightarrow> scan r s i adv = []"
  by (subst scan.simps) simp

lemma ends_spec_pattern_Nil: "run Digit s i = 0 \<Longrightarrow> ends spec_pattern s i = []"
  by (simp add: ends_spec_pattern)

lemma ends_spec_pattern_Cons:
  assumes "0 < run Digit s i"
  shows "\<exists>es. ends spec_pattern s i = first_end s i # es"
proof -
  define j where "j = i + run Digit s i"
  from assms have p: "ends (Plus Digit) s i = j # rev (map (\<lambda>k. i + k) [1 ..< run Digit s i])"
    unfolding j_def by (rule ends_plus_nonempty)
  show ?thesis
  proof (cases "j < length s \<and> s ! j = CHR ''.'' \<and> 0 < run Digit s (Suc j)")
    case True
    then have "ends (Plus Digit) s (Suc j)
        = (Suc j + run Digit s (Suc j)) # rev (map (\<lambda>k. Suc j + k) [1 ..< run Digit s (Suc j)])"
      by (intro ends_plus_nonempty) simp
    with True have "\<exists>es. ends (Seq (Chars (Lit CHR ''.'')) (Plus Digit)) s j
        = (Suc j + run Digit s (Suc j)) # es"
      by (simp only: ends_fraction) simp
    then obtain es where "ends (Seq (Chars (Lit CHR ''.'')) (Plus Digit)) s j
        = (Suc j + run Digit s (Suc j)) # es"
      by blast
    moreover from True have "first_end s i = Suc j + run Digit s (Suc j)"
      by (simp add: first_end_def j_def Let_def)
    ultimately show ?thesis
      by (simp only: ends_spec_pattern p) simp
  next
    case False
    then have "ends (Seq (Chars (Lit CHR ''.'')) (Plus Digit)) s j = []"
      by (simp only: ends_fraction) (auto simp: ends_Plus_Nil)
    moreover from False have "first_end s i = j"
      by (auto simp: first_end_def j_def Let_def)
    ultimately show ?thesis
      by (simp only: ends_spec_pattern p) simp
  qed
qed

lemma first_end_greater: "0 < run Digit s i \<Longrightarrow> i < first_end s i"
  by (simp add: first_end_def Let_def)

lemma first_end_run:
  assumes "0 < run Digit s i"
  shows "\<exists>k. 0 < run Digit s k \<and> first_end s i = k + run Digit s k"
proof (cases "i + run Digit s i < length s \<and> s ! (i + run Digit s i) = CHR ''.''
    \<and> 0 < run Digit s (Suc (i + run Digit s i))")
  case True
  then have "first_end s i = Suc (i + run Digit s i) + run Digit s (Suc (i + run Digit s i))"
    by (simp add: first_end_def Let_def)
  with True show ?thesis
    by blast
next
  case False
  then have "first_end s i = i + run Digit s i"
    by (auto simp: first_end_def Let_def)
  with assms show ?thesis
    by blast
qed

lemma not_inside_run_end: "\<not> inside_run s (k + run Digit s k)"
proof
  assume a: "inside_run s (k + run Digit s k)"
  then have "k + run Digit s k < length s"
    by (simp add: inside_run_def)
  from run_stop [OF this] a show False
    by (simp add: inside_run_def)
qed

lemma not_inside_run_Suc:
  assumes "run Digit s i = 0"
  shows "\<not> inside_run s (Suc i)"
proof
  assume a: "inside_run s (Suc i)"
  then have "i < length s" "is_digit (s ! i)"
    by (simp_all add: inside_run_def)
  then have "0 < run Digit s i"
    by (intro run_pos) simp_all
  with assms show False
    by simp
qed

lemma only_digit_wordsD:
  "only_digit_words s \<Longrightarrow> i < length s \<Longrightarrow> \<not> is_digit (s ! i) \<Longrightarrow> \<not> is_word (s ! i)"
  by (auto simp: only_digit_words_def list_all_length)

lemma boundary_after_run:
  assumes "only_digit_words s" "0 < run Digit s k"
  shows "boundary s (k + run Digit s k)"
proof -
  from assms(2) have "run Digit s k - 1 < run Digit s k"
    by simp
  from run_nth [OF this] assms(2)
  have b: "k + run Digit s k - 1 < length s" "is_digit (s ! (k + run Digit s k - 1))"
    by simp_all
  have "\<not> word_at s (k + run Digit s k)"
  proof (cases "k + run Digit s k < length s")
    case True
    from run_stop [OF True] have "\<not> is_digit (s ! (k + run Digit s k))"
      by simp
    with assms(1) True have "\<not> is_word (s ! (k + run Digit s k))"
      by (intro only_digit_wordsD)
    then show ?thesis
      by (simp add: word_at_def)
  next
    case False
    then show ?thesis
      by (simp add: word_at_def)
  qed
  with b assms(2) show ?thesis
    by (simp add: boundary_def word_at_def is_digit_word)
qed

lemma boundary_before_run:
  assumes "only_digit_words s" "0 < run Digit s i" "\<not> inside_run s i"
  shows "boundary s i"
proof -
  from run_nth [OF assms(2)] have a: "i < length s" "is_digit (s ! i)"
    by simp_all
  have "\<not> (0 < i \<and> word_at s (i - 1))"
  proof
    assume b: "0 < i \<and> word_at s (i - 1)"
    with a assms(3) have "\<not> is_digit (s ! (i - 1))"
      by (simp add: inside_run_def)
    with assms(1) b a have "\<not> is_word (s ! (i - 1))"
      by (intro only_digit_wordsD) simp_all
    with b show False
      by (simp add: word_at_def)
  qed
  with a show ?thesis
    by (simp add: boundary_def word_at_def is_digit_word)
qed

lemma ends_box_pattern_Nil: "run Digit s i = 0 \<Longrightarrow> ends box_pattern s i = []"
  by (simp add: ends_box_pattern ends_spec_pattern_Nil)

lemma ends_box_pattern_Cons:
  assumes "only_digit_words s" "0 < run Digit s i" "\<not> inside_run s i"
  shows "\<exists>es. ends box_pattern s i = first_end s i # es"
proof -
  from ends_spec_pattern_Cons [OF assms(2)] obtain es
    where es: "ends spec_pattern s i = first_end s i # es"
    by blast
  from first_end_run [OF assms(2)] obtain k
    where "0 < run Digit s k" "first_end s i = k + run Digit s k"
    by blast
  with assms(1) have "boundary s (first_end s i)"
    by (simp add: boundary_after_run)
  moreover have "boundary s i"
    using assms by (rule boundary_before_run)
  ultimately show ?thesis
    by (simp add: ends_box_pattern es)
qed

lemma scan_patterns_equal:
  assumes "only_digit_words s"
  shows "\<not> inside_run s i \<Longrightarrow> scan box_pattern s i False = scan spec_pattern s i False"
proof (induction "Suc (length s) - i" arbitrary: i rule: less_induct)
  case less
  show ?case
  proof (cases "length s < i")
    case True
    then show ?thesis
      by (simp add: scan_beyond)
  next
    case False
    show ?thesis
    proof (cases "run Digit s i = 0")
      case True
      from False have "Suc (length s) - Suc i < Suc (length s) - i"
        by simp
      moreover have "\<not> inside_run s (Suc i)"
        using True by (rule not_inside_run_Suc)
      ultimately have "scan box_pattern s (Suc i) False = scan spec_pattern s (Suc i) False"
        by (rule less.hyps)
      with False True show ?thesis
        by (simp add: scan_step_Nil ends_box_pattern_Nil ends_spec_pattern_Nil)
    next
      case r: False
      then have pos: "0 < run Digit s i"
        by simp
      from ends_spec_pattern_Cons [OF pos] obtain es
        where es: "ends spec_pattern s i = first_end s i # es"
        by blast
      from ends_box_pattern_Cons [OF assms pos less.prems] obtain es'
        where es': "ends box_pattern s i = first_end s i # es'"
        by blast
      from first_end_greater [OF pos] have gt: "i < first_end s i"
        by simp
      with False have "Suc (length s) - first_end s i < Suc (length s) - i"
        by simp
      moreover from first_end_run [OF pos] have "\<not> inside_run s (first_end s i)"
        using not_inside_run_end by auto
      ultimately have "scan box_pattern s (first_end s i) False
          = scan spec_pattern s (first_end s i) False"
        by (rule less.hyps)
      with False gt show ?thesis
        by (simp add: scan_step_Cons [OF _ es] scan_step_Cons [OF _ es'])
    qed
  qed
qed

lemma findall_patterns_equal:
  "only_digit_words s \<Longrightarrow> findall box_pattern s = findall spec_pattern s"
  by (simp add: findall_def scan_patterns_equal inside_run_def)

lemma scan_boundaries:
  assumes "m \<in> set (scan box_pattern s 0 False)"
  shows "boundary s (fst m) \<and> boundary s (snd m) \<and> snd m \<in> set (ends spec_pattern s (fst m))"
proof -
  from assms have "(fst m, snd m) \<in> set (scan box_pattern s 0 False)"
    by simp
  then have "snd m \<in> set (ends box_pattern s (fst m))"
    by (rule scan_match)
  then show ?thesis
    by (simp add: ends_box_pattern split: if_splits)
qed

lemma findall_box_letter: "findall box_pattern ''1.5a'' = [''1'']"
  by code_simp

lemma findall_spec_letter: "findall spec_pattern ''1.5a'' = [''1.5'']"
  by code_simp

lemma scan_box_letter: "scan box_pattern ''1.5a'' 0 False = [(0, 1)]"
  by code_simp

lemma only_digit_words_example:
  "only_digit_words ''2600000.5 1200000 2601000 1201000.25''"
  by code_simp

text \<open>
  C2, as the specification states it: the tokens box2geometry extracts are the
  matches of a left-to-right scan for \<open>\d+(\.\d+)?\<close>. They are not: the pattern of the
  code asks for a word boundary on both sides. In \<open>1.5a\<close> the scan of the
  specification finds \<open>1.5\<close>; the code finds \<open>1\<close>, because no word boundary lies
  between \<open>5\<close> and \<open>a\<close>.
\<close>

theorem tokens_differ_from_plain_scan:
  "findall box_pattern ''1.5a'' = [''1'']
   \<and> findall spec_pattern ''1.5a'' = [''1.5'']
   \<and> findall box_pattern ''1.5a'' \<noteq> findall spec_pattern ''1.5a''"
  by (simp add: findall_box_letter findall_spec_letter)

text \<open>
  C2, amended. The tokens box2geometry extracts are the matches, from left to right,
  of \<open>\b\d+(\.\d+)?\b\<close>: each is a match of \<open>\d+(\.\d+)?\<close> that begins and ends at a
  word boundary. For every text whose only word characters are digits (no letter and
  no underscore) they are exactly the matches of the left-to-right scan for
  \<open>\d+(\.\d+)?\<close>.
\<close>

theorem tokens_are_bounded_numbers:
  "(only_digit_words s \<longrightarrow> findall box_pattern s = findall spec_pattern s)
   \<and> (\<forall>m \<in> set (scan box_pattern s 0 False).
         boundary s (fst m) \<and> boundary s (snd m) \<and> snd m \<in> set (ends spec_pattern s (fst m)))"
  using findall_patterns_equal scan_boundaries by blast

theorem tokens_are_bounded_numbers_witness:
  "only_digit_words ''2600000.5 1200000 2601000 1201000.25''
   \<and> findall spec_pattern ''2600000.5 1200000 2601000 1201000.25''
       = [''2600000.5'', ''1200000'', ''2601000'', ''1201000.25'']
   \<and> (0, 1) \<in> set (scan box_pattern ''1.5a'' 0 False)
   \<and> boundary ''1.5a'' 0 \<and> boundary ''1.5a'' 1"
proof -
  have m: "(0, 1) \<in> set (scan box_pattern ''1.5a'' 0 False)"
    by (simp add: scan_box_letter)
  from tokens_are_bounded_numbers [of "''1.5a''"]
  have "\<forall>m \<in> set (scan box_pattern ''1.5a'' 0 False).
      boundary ''1.5a'' (fst m) \<and> boundary ''1.5a'' (snd m)
      \<and> snd m \<in> set (ends spec_pattern ''1.5a'' (fst m))"
    by (rule conjunct2)
  from this m have b: "boundary ''1.5a'' (fst (0::nat, 1::nat)) \<and> boundary ''1.5a'' (snd (0::nat, 1::nat))
      \<and> snd (0::nat, 1::nat) \<in> set (ends spec_pattern ''1.5a'' (fst (0::nat, 1::nat)))"
    by (rule bspec)
  from tokens_are_bounded_numbers [of "''2600000.5 1200000 2601000 1201000.25''"]
    only_digit_words_example
  have "findall box_pattern ''2600000.5 1200000 2601000 1201000.25''
      = findall spec_pattern ''2600000.5 1200000 2601000 1201000.25''"
    by blast
  then have "findall spec_pattern ''2600000.5 1200000 2601000 1201000.25''
       = [''2600000.5'', ''1200000'', ''2601000'', ''1201000.25'']"
    by (simp only: findall_example_box)
  with only_digit_words_example m b show ?thesis
    by simp
qed

end
